theory Spec2Isabelle
  imports Complex_Main "HOL-Library.Word" "HOL-Library.Sublist"
begin

unbundle bit_operations_syntax

section \<open>Data model (types.ts and the state of the App component)\<close>

text \<open>
  The interfaces of types.ts become records. Field names carry a short prefix where the
  TypeScript name (\<open>name\<close>, \<open>number\<close>, \<open>id\<close>, \<open>time\<close>, \<open>type\<close>) would clash between records or
  with a constant of HOL. The \<open>id\<close> of a Reminder and the \<open>id\<close> and \<open>timestamp\<close> of a LogEntry
  come from \<open>Math.random\<close> and the wall clock; nothing below reads them and they are left out.
\<close>

record Contact =
  contact_name :: string
  contact_number :: string

record PhoneState =
  isInCall :: bool
  activeContact :: "Contact option"
  callDuration :: nat

record Reminder =
  task :: "string option"
  reminder_time :: string
  completed :: bool

datatype LogType = Info | Action | Error | System

record LogEntry =
  message :: string
  log_type :: LogType

record SearchResult =
  title :: "string option"
  url :: "string option"

text \<open>The mock contacts of types.ts, in the order of the source.\<close>

definition MOCK_CONTACTS :: "Contact list" where
  "MOCK_CONTACTS =
     [\<lparr>contact_name = ''Mom'', contact_number = ''9876543210''\<rparr>,
      \<lparr>contact_name = ''Dad'', contact_number = ''9123456789''\<rparr>,
      \<lparr>contact_name = ''Boss'', contact_number = ''8888888888''\<rparr>,
      \<lparr>contact_name = ''Pepper'', contact_number = ''7777777777''\<rparr>,
      \<lparr>contact_name = ''Happy'', contact_number = ''9999999999''\<rparr>]"

text \<open>
  A function call of the remote model: \<open>fc.id\<close>, \<open>fc.name\<close>, \<open>fc.args\<close>. The arguments are an
  object from names to strings (every parameter of \<open>toolsDef\<close> is declared \<open>Type.STRING\<close>); a
  name that is absent reads as \<open>undefined\<close>, which is \<open>None\<close> here.
\<close>

record ToolCall =
  fc_id :: string
  fc_name :: string
  fc_args :: "string \<rightharpoonup> string"

text \<open>The payload of \<open>sendToolResponse\<close>: \<open>{ id, name, response: { result } }\<close>.\<close>

record ToolResponse =
  resp_id :: string
  resp_name :: string
  resp_result :: string

text \<open>
  Objects of the browser and of the SDK that the component holds in refs. Each record keeps
  what the code reads or changes: the clock of an audio context and whether it was closed,
  whether the tracks of a media stream were stopped, whether the session was closed and
  the calls of \<open>sendToolResponse\<close> made on it, in order.
\<close>

record AudioContext =
  currentTime :: real
  ctx_closed :: bool

record MediaStream =
  tracks_stopped :: bool

record LiveSession =
  session_closed :: bool
  toolResponses :: "ToolResponse list"

record AudioBuffer =
  duration :: real

text \<open>
  An \<open>AudioBufferSourceNode\<close>: its buffer, the time given to \<open>start\<close> (\<open>None\<close> until \<open>start\<close> is
  called) and whether \<open>stop\<close> was called. Nodes live in a store, the list \<open>nodes\<close> of the state;
  a reference to a node is its index there, so object identity (\<open>s !== source\<close>) is inequality
  of indices and the store lists the nodes in the order of their creation.
\<close>

record AudioBufferSourceNode =
  node_buffer :: AudioBuffer
  node_start :: "real option"
  node_stopped :: bool

datatype js_error = TypeError | InvalidStateError

text \<open>
  The state of the component: the \<open>useState\<close> values and the refs that the session code
  uses. \<open>connected\<close> is named \<open>connected_flag\<close> (HOL has a constant \<open>connected\<close>). The view
  mode, the AGI flag and the install prompt belong to the user interface only and are left out.
\<close>

record app_state =
  connected_flag :: bool
  isSpeaking :: bool
  isVisionActive :: bool
  logs :: "LogEntry list"
  reminders :: "Reminder list"
  phoneState :: PhoneState
  searchResults :: "SearchResult list"
  weatherState :: "(string \<rightharpoonup> string) option"
  voiceGeneratedImage :: "string option"
  audioContextRef :: "AudioContext option"
  inputAudioContextRef :: "AudioContext option"
  analyserRef :: "unit option"
  streamRef :: "MediaStream option"
  videoStreamRef :: "MediaStream option"
  audioSourcesRef :: "nat list"
  clientRef :: "unit option"
  sessionRef :: "LiveSession option"
  nextStartTimeRef :: real
  nodes :: "AudioBufferSourceNode list"

text \<open>The state of a freshly mounted component (the initial values of the hooks).\<close>

definition initial_state :: app_state where
  "initial_state =
     \<lparr>connected_flag = False, isSpeaking = False, isVisionActive = False, logs = [],
      reminders = [],
      phoneState = \<lparr>isInCall = False, activeContact = None, callDuration = 0\<rparr>,
      searchResults = [], weatherState = None, voiceGeneratedImage = None,
      audioContextRef = None, inputAudioContextRef = None, analyserRef = None,
      streamRef = None, videoStreamRef = None, audioSourcesRef = [], clientRef = None,
      sessionRef = None, nextStartTimeRef = 0, nodes = []\<rparr>"

text \<open>
  An asynchronous function either returns or throws (its promise rejects); what it did to
  the state before throwing stays done, so both outcomes carry the state.
\<close>

datatype completion = Returned app_state | Threw js_error app_state

fun state_of :: "completion \<Rightarrow> app_state" where
  "state_of (Returned st) = st"
| "state_of (Threw e st) = st"

fun threw :: "completion \<Rightarrow> bool" where
  "threw (Returned st) = False"
| "threw (Threw e st) = True"

section \<open>JavaScript helpers\<close>

text \<open>\<open>String.prototype.toLowerCase\<close> on ASCII text: the letters A to Z are mapped to a to z.\<close>

definition lower_char :: "char \<Rightarrow> char" where
  "lower_char c =
     (case map_of (zip ''ABCDEFGHIJKLMNOPQRSTUVWXYZ'' ''abcdefghijklmnopqrstuvwxyz'') c of
        Some l \<Rightarrow> l
      | None \<Rightarrow> c)"

definition toLowerCase :: "string \<Rightarrow> string" where
  "toLowerCase s = map lower_char s"

text \<open>A value inside a template literal: \<open>undefined\<close> prints as the word itself.\<close>

fun template :: "string option \<Rightarrow> string" where
  "template None = ''undefined''"
| "template (Some s) = s"

text \<open>\<open>Array.prototype.find\<close> is \<open>List.find\<close>.\<close>

section \<open>addLog and the tool dispatcher (handleToolCall)\<close>

definition addLog :: "string \<Rightarrow> LogType \<Rightarrow> app_state \<Rightarrow> app_state" where
  "addLog msg ty st = st\<lparr>logs := logs st @ [\<lparr>message = msg, log_type = ty\<rparr>]\<rparr>"

text \<open>
  What awaiting \<open>clientRef.current.models.generateContent\<close> gives: the promise rejects with
  an error whose message is the string, or it resolves and
  \<open>response.candidates?.[0]?.content?.parts?.find(p => p.inlineData)?.inlineData?.data\<close> is
  the given value (\<open>None\<close> for \<open>undefined\<close>). The remote service is a parameter of the
  dispatcher: a function from the call to what the service answers for it.
\<close>

datatype gen_reply = Rejected string | Resolved "string option"

text \<open>
  The \<open>switch (fc.name)\<close> of handleToolCall. It gives the result string and the new state, or
  the error thrown: \<open>args.contactName.toLowerCase()\<close> throws a TypeError when
  \<open>args.contactName\<close> is \<open>undefined\<close>. No case matches an unknown name and there is no
  default, so \<open>result\<close> keeps its initial value \<open>"Done"\<close>.
\<close>

definition tool_switch ::
  "(ToolCall \<Rightarrow> gen_reply) \<Rightarrow> ToolCall \<Rightarrow> app_state \<Rightarrow> js_error + (string \<times> app_state)" where
  "tool_switch generateContent fc st =
     (let args = fc_args fc; result = ''Done'' in
      if fc_name fc = ''make_call'' then
        (case args ''contactName'' of
           None \<Rightarrow> Inl TypeError
         | Some requested \<Rightarrow>
             let contact =
                   (case find (\<lambda>c. toLowerCase (contact_name c) = toLowerCase requested)
                           MOCK_CONTACTS of
                      Some c \<Rightarrow> c
                    | None \<Rightarrow> \<lparr>contact_name = requested, contact_number = ''UNKNOWN''\<rparr>)
             in Inr (''Call Initiated. Info: Calling '' @ contact_name contact @ '' at ''
                       @ contact_number contact @ ''. Confirm this to user.'',
                     st\<lparr>phoneState :=
                          \<lparr>isInCall = True, activeContact = Some contact, callDuration = 0\<rparr>\<rparr>))
      else if fc_name fc = ''end_call'' then
        Inr (''Call disconnected. Confirm to user.'',
             st\<lparr>phoneState := (phoneState st)\<lparr>isInCall := False, activeContact := None\<rparr>\<rparr>)
      else if fc_name fc = ''send_message'' then
        Inr (''Message delivered to '' @ template (args ''contactName'') @ ''. Confirm to user.'',
             addLog (''SENDING SMS TO '' @ template (args ''contactName'') @ '': \"''
                       @ template (args ''messageBody'') @ ''\"'') System st)
      else if fc_name fc = ''set_reminder'' then
        Inr (''Memory stored: '' @ template (args ''task'') @ ''. Confirm to user.'',
             st\<lparr>reminders := reminders st @
                   [\<lparr>task = args ''task'',
                     reminder_time =
                       (case args ''time'' of
                          None \<Rightarrow> ''Today''
                        | Some t \<Rightarrow> if t = [] then ''Today'' else t),
                     completed = False\<rparr>]\<rparr>)
      else if fc_name fc = ''check_notifications'' then
        Inr (''Found notifications: WhatsApp (3), Battery 89%, Meeting in 15m. Read these out.'',
             st)
      else if fc_name fc = ''screen_control'' then
        Inr (''Screen action '' @ template (args ''action'') @ '' executed.'', st)
      else if fc_name fc = ''display_weather'' then
        Inr (''Weather data for '' @ template (args ''location'')
               @ '' displayed on HUD. Confirm current condition to user.'',
             st\<lparr>weatherState := Some args\<rparr>)
      else if fc_name fc = ''generate_image'' then
        (case clientRef st of
           None \<Rightarrow> Inr (result, st)
         | Some client \<Rightarrow>
             (case generateContent fc of
                Rejected msg \<Rightarrow>
                  Inr (''Image generation failed: '' @ msg,
                       addLog (''Gen Error: '' @ msg) Error st)
              | Resolved None \<Rightarrow> Inr (''Image generation failed to return data.'', st)
              | Resolved (Some d) \<Rightarrow>
                  if d = [] then Inr (''Image generation failed to return data.'', st)
                  else
                    Inr (''Image generated successfully and displayed on the main screen. Tell the user here it is.'',
                         addLog (''Image Generated: '' @ template (args ''prompt'')) Info
                           (st\<lparr>voiceGeneratedImage := Some (''data:image/png;base64,'' @ d)\<rparr>))))
      else Inr (result, st))"

definition sendToolResponse :: "ToolResponse \<Rightarrow> LiveSession \<Rightarrow> LiveSession" where
  "sendToolResponse r s = s\<lparr>toolResponses := toolResponses s @ [r]\<rparr>"

text \<open>
  handleToolCall: the log entry, then the switch, then the response on the session if
  \<open>sessionRef.current\<close> is set. \<open>playSystemSound\<close> (utils/audioUtils, not among the sources) only
  emits a sound on the audio context; it changes nothing of this state.
\<close>

definition handleToolCall ::
  "(ToolCall \<Rightarrow> gen_reply) \<Rightarrow> ToolCall \<Rightarrow> app_state \<Rightarrow> completion" where
  "handleToolCall generateContent fc st =
     (let st1 = addLog (''Executing Protocol: '' @ fc_name fc) Action st in
      case tool_switch generateContent fc st1 of
        Inl e \<Rightarrow> Threw e st1
      | Inr (result, st2) \<Rightarrow>
          (case sessionRef st2 of
             None \<Rightarrow> Returned st2
           | Some session \<Rightarrow>
               Returned (st2\<lparr>sessionRef := Some (sendToolResponse
                  \<lparr>resp_id = fc_id fc, resp_name = fc_name fc, resp_result = result\<rparr>
                  session)\<rparr>)))"

section \<open>The playback scheduler (stopAllAudio and the audio branch of onmessage)\<close>

text \<open>
  \<open>source.stop()\<close> on the node a reference points to. The Web Audio API throws an
  InvalidStateError when \<open>start\<close> was never called on the node; otherwise the node is stopped.
  A reference outside the store does not arise (every reference is made by
  \<open>createBufferSource\<close>); the model lets the call throw there as well.
\<close>

definition source_stop ::
  "nat \<Rightarrow> AudioBufferSourceNode list \<Rightarrow> js_error + AudioBufferSourceNode list" where
  "source_stop source ns =
     (if source < length ns \<and> node_start (ns ! source) \<noteq> None
      then Inr (ns[source := (ns ! source)\<lparr>node_stopped := True\<rparr>])
      else Inl InvalidStateError)"

text \<open>\<open>try { source.stop(); } catch (e) {}\<close>: an error leaves the store as it was.\<close>

definition try_stop :: "nat \<Rightarrow> AudioBufferSourceNode list \<Rightarrow> AudioBufferSourceNode list" where
  "try_stop source ns = (case source_stop source ns of Inl e \<Rightarrow> ns | Inr ns' \<Rightarrow> ns')"

definition stopAllAudio :: "app_state \<Rightarrow> app_state" where
  "stopAllAudio st =
     (let st1 = st\<lparr>nodes := fold try_stop (audioSourcesRef st) (nodes st)\<rparr>;
          st2 = st1\<lparr>audioSourcesRef := []\<rparr>;
          st3 = (case audioContextRef st2 of
                   None \<Rightarrow> st2
                 | Some ctx \<Rightarrow> st2\<lparr>nextStartTimeRef := currentTime ctx\<rparr>)
      in st3\<lparr>isSpeaking := False\<rparr>)"

text \<open>
  The audio branch of onmessage (lines 373 to 387), entered with the decoded buffer:
  \<open>setIsSpeaking(true)\<close>, a new source node for the buffer, pushed on \<open>audioSourcesRef\<close>,
  started at \<open>Math.max(currentTime, nextStartTimeRef.current)\<close>, and the marker set to that
  start time plus the duration of the buffer. Without an audio context or an analyser the
  branch is skipped.
\<close>

definition audio_branch :: "AudioBuffer \<Rightarrow> app_state \<Rightarrow> app_state" where
  "audio_branch buffer st =
     (case audioContextRef st of
        None \<Rightarrow> st
      | Some ctx \<Rightarrow>
          (case analyserRef st of
             None \<Rightarrow> st
           | Some analyser \<Rightarrow>
               let source = length (nodes st);
                   startTime = max (currentTime ctx) (nextStartTimeRef st)
               in st\<lparr>isSpeaking := True,
                     nodes := nodes st @
                       [\<lparr>node_buffer = buffer, node_start = Some startTime,
                         node_stopped = False\<rparr>],
                     audioSourcesRef := audioSourcesRef st @ [source],
                     nextStartTimeRef := startTime + duration buffer\<rparr>))"

text \<open>
  \<open>source.onended\<close> of the node \<open>source\<close>: the node is filtered out of \<open>audioSourcesRef\<close>, and
  \<open>setIsSpeaking(false)\<close> is called when there is an audio context whose clock is at least
  \<open>nextStartTimeRef.current - 0.1\<close>.
\<close>

definition onended :: "nat \<Rightarrow> app_state \<Rightarrow> app_state" where
  "onended source st =
     (let st1 = st\<lparr>audioSourcesRef := filter (\<lambda>s. s \<noteq> source) (audioSourcesRef st)\<rparr> in
      case audioContextRef st1 of
        None \<Rightarrow> st1
      | Some ctx \<Rightarrow>
          if currentTime ctx \<ge> nextStartTimeRef st1 - 0.1 then st1\<lparr>isSpeaking := False\<rparr>
          else st1)"

section \<open>The session callbacks (onmessage) and disconnect\<close>

text \<open>
  An inbound message, as far as onmessage reads it: whether
  \<open>serverContent?.interrupted\<close> is set, the function calls of \<open>toolCall\<close> if there is one, the
  grounding chunks if there are any (each chunk is its \<open>web\<close> entry, \<open>None\<close> when it has none),
  and the audio of the first part. \<open>audioData\<close> is \<open>Some buffer\<close> when the data is a non-empty
  string, \<open>buffer\<close> being what \<open>decodeAudioData\<close> (utils/audioUtils, not among the sources)
  makes of it.
\<close>

record LiveServerMessage =
  interrupted :: bool
  toolCall :: "ToolCall list option"
  groundingChunks :: "SearchResult option list option"
  audioData :: "AudioBuffer option"

text \<open>
  \<open>for (const fc of msg.toolCall.functionCalls) await handleToolCall(fc)\<close>: one call after the
  other; a call that throws ends the loop, and onmessage with it.
\<close>

fun toolCall_loop :: "(ToolCall \<Rightarrow> gen_reply) \<Rightarrow> ToolCall list \<Rightarrow> app_state \<Rightarrow> completion" where
  "toolCall_loop generateContent [] st = Returned st"
| "toolCall_loop generateContent (fc # fcs) st =
     (case handleToolCall generateContent fc st of
        Threw e st' \<Rightarrow> Threw e st'
      | Returned st' \<Rightarrow> toolCall_loop generateContent fcs st')"

definition grounding_branch :: "SearchResult option list \<Rightarrow> app_state \<Rightarrow> app_state" where
  "grounding_branch chunks st =
     (let newResults = List.map_filter (\<lambda>c. c) chunks in
      if length newResults > 0 then st\<lparr>searchResults := newResults\<rparr> else st)"

definition onmessage ::
  "(ToolCall \<Rightarrow> gen_reply) \<Rightarrow> LiveServerMessage \<Rightarrow> app_state \<Rightarrow> completion" where
  "onmessage generateContent msg st =
     (if interrupted msg then Returned (stopAllAudio st)
      else
        case (case toolCall msg of
                None \<Rightarrow> Returned st
              | Some functionCalls \<Rightarrow> toolCall_loop generateContent functionCalls st) of
          Threw e st1 \<Rightarrow> Threw e st1
        | Returned st1 \<Rightarrow>
            let st2 = (case groundingChunks msg of
                         None \<Rightarrow> st1
                       | Some chunks \<Rightarrow> grounding_branch chunks st1)
            in Returned (case audioData msg of
                           None \<Rightarrow> st2
                         | Some buffer \<Rightarrow> audio_branch buffer st2))"

text \<open>
  disconnect. Every call on a ref goes through \<open>?.\<close>, which skips the call when the ref is
  null; \<open>track.stop()\<close> and the \<open>close()\<close> methods do not throw, and the only call that can,
  \<open>source.stop()\<close>, is inside the try of stopAllAudio. The refs themselves are not cleared.
\<close>

definition disconnect :: "app_state \<Rightarrow> completion" where
  "disconnect st =
     (let st1 = stopAllAudio st;
          st2 = st1\<lparr>streamRef :=
                      map_option (\<lambda>stream. stream\<lparr>tracks_stopped := True\<rparr>) (streamRef st1)\<rparr>;
          st3 = st2\<lparr>videoStreamRef :=
                      map_option (\<lambda>stream. stream\<lparr>tracks_stopped := True\<rparr>) (videoStreamRef st2)\<rparr>;
          st4 = st3\<lparr>sessionRef :=
                      map_option (\<lambda>session. session\<lparr>session_closed := True\<rparr>) (sessionRef st3)\<rparr>;
          st5 = st4\<lparr>audioContextRef :=
                      map_option (\<lambda>ctx. ctx\<lparr>ctx_closed := True\<rparr>) (audioContextRef st4)\<rparr>;
          st6 = st5\<lparr>inputAudioContextRef :=
                      map_option (\<lambda>ctx. ctx\<lparr>ctx_closed := True\<rparr>) (inputAudioContextRef st5)\<rparr>;
          st7 = st6\<lparr>connected_flag := False, isSpeaking := False, isVisionActive := False,
                    searchResults := []\<rparr>
      in Returned (addLog ''SYSTEM OFFLINE'' System st7))"

section \<open>Events of a session\<close>

text \<open>
  The output clock is the \<open>currentTime\<close> of the audio context; it moves by itself. What
  happens to the component during a session is a sequence of events: the clock is read at a
  new value, a message arrives, or a source node ends. A message whose handler throws
  leaves the state it had reached.
\<close>

definition set_clock :: "real \<Rightarrow> app_state \<Rightarrow> app_state" where
  "set_clock t st =
     st\<lparr>audioContextRef := map_option (\<lambda>ctx. ctx\<lparr>currentTime := t\<rparr>) (audioContextRef st)\<rparr>"

datatype event = Clock real | Message LiveServerMessage | Ended nat

fun step :: "(ToolCall \<Rightarrow> gen_reply) \<Rightarrow> event \<Rightarrow> app_state \<Rightarrow> app_state" where
  "step generateContent (Clock t) st = set_clock t st"
| "step generateContent (Message msg) st = state_of (onmessage generateContent msg st)"
| "step generateContent (Ended source) st = onended source st"

definition run :: "(ToolCall \<Rightarrow> gen_reply) \<Rightarrow> event list \<Rightarrow> app_state \<Rightarrow> app_state" where
  "run generateContent evs st = fold (step generateContent) evs st"

fun uninterrupted :: "event \<Rightarrow> bool" where
  "uninterrupted (Message msg) = (\<not> interrupted msg)"
| "uninterrupted _ = True"

text \<open>A message that carries one audio buffer and nothing else.\<close>

definition audio_message :: "AudioBuffer \<Rightarrow> LiveServerMessage" where
  "audio_message buffer =
     \<lparr>interrupted = False, toolCall = None, groundingChunks = None, audioData = Some buffer\<rparr>"

text \<open>
  The component once connectToJarvis (in standard mode) has run and the session has
  opened, the output clock reading \<open>t\<close>: the two log entries are written, both audio
  contexts, the analyser, the microphone stream, the client and the session are set.
\<close>

definition connected_state :: "real \<Rightarrow> app_state" where
  "connected_state t =
     initial_state\<lparr>connected_flag := True,
       logs := [\<lparr>message = ''Initializing J.A.R.V.I.S. Protocol...'', log_type = System\<rparr>,
                \<lparr>message = ''SYSTEM ONLINE.'', log_type = Info\<rparr>],
       streamRef := Some \<lparr>tracks_stopped = False\<rparr>,
       inputAudioContextRef := Some \<lparr>currentTime = t, ctx_closed = False\<rparr>,
       audioContextRef := Some \<lparr>currentTime = t, ctx_closed = False\<rparr>,
       analyserRef := Some (),
       clientRef := Some (),
       sessionRef := Some \<lparr>session_closed = False, toolResponses = []\<rparr>\<rparr>"

section \<open>The frame codec\<close>

text \<open>
  Modelled from the spec: the Frame Codec (createPcmBlob and decodeAudioData of
  utils/audioUtils, which is not among the sources). A sample is scaled by \<open>2^15\<close>, rounded
  to an integer, clamped to the range of a signed 16-bit integer and written as two bytes,
  low byte first. The spec does not say how a scaled sample is rounded, so the rounding is
  the parameter \<open>rnd\<close>. Samples are real numbers here: scaling a binary floating-point
  number by a power of two is exact, so the only loss is the rounding to an integer.
\<close>

definition quantize :: "(real \<Rightarrow> int) \<Rightarrow> real \<Rightarrow> int" where
  "quantize rnd x = max (- 32768) (min 32767 (rnd (x * 32768)))"

text \<open>
  Modelled from the spec: the two bytes of a signed 16-bit integer, little-endian.
\<close>

definition int16_bytes :: "int \<Rightarrow> 8 word list" where
  "int16_bytes i = (let w = (word_of_int i :: 16 word) in [ucast w, ucast (drop_bit 8 w)])"

text \<open>
  Modelled from the spec: encoding a buffer of samples, sample by sample.
\<close>

definition encode_frame :: "(real \<Rightarrow> int) \<Rightarrow> real list \<Rightarrow> 8 word list" where
  "encode_frame rnd xs = concat (map (\<lambda>x. int16_bytes (quantize rnd x)) xs)"

text \<open>
  Modelled from the spec: decoding reads the bytes two by two, low byte first, as signed
  16-bit integers and divides by \<open>2^15\<close>; the sample count is the byte length divided by two.
\<close>

fun decode_frame :: "8 word list \<Rightarrow> real list" where
  "decode_frame (lo # hi # bs) =
     real_of_int (sint (word_cat hi lo :: 16 word)) / 32768 # decode_frame bs"
| "decode_frame bs = []"

definition quantization_step :: real where
  "quantization_step = 1 / 32768"

section \<open>Notions used to state the properties\<close>

text \<open>The names of the tools declared in \<open>toolsDef\<close>, in the order of the source.\<close>

definition toolsDef :: "string list" where
  "toolsDef =
     [''make_call'', ''end_call'', ''send_message'', ''set_reminder'',
      ''check_notifications'', ''screen_control'', ''display_weather'', ''generate_image'']"

text \<open>The responses sent on the session so far (none when there is no session).\<close>

definition sent :: "app_state \<Rightarrow> ToolResponse list" where
  "sent st = (case sessionRef st of None \<Rightarrow> [] | Some session \<Rightarrow> toolResponses session)"

text \<open>
  The messages of the log entries of type \<open>action\<close>. handleToolCall writes one on entry
  and nothing else in the model writes any, so they record which handlers were entered and
  in which order.
\<close>

definition action_log :: "app_state \<Rightarrow> string list" where
  "action_log st = map message (filter (\<lambda>e. log_type e = Action) (logs st))"

definition protocol_entry :: "ToolCall \<Rightarrow> string" where
  "protocol_entry fc = ''Executing Protocol: '' @ fc_name fc"

text \<open>The calls on which the switch throws: a \<open>make_call\<close> without \<open>contactName\<close>.\<close>

definition throws_on :: "ToolCall \<Rightarrow> bool" where
  "throws_on fc = (fc_name fc = ''make_call'' \<and> fc_args fc ''contactName'' = None)"

definition call_key :: "ToolCall \<Rightarrow> string \<times> string" where
  "call_key fc = (fc_id fc, fc_name fc)"

definition response_key :: "ToolResponse \<Rightarrow> string \<times> string" where
  "response_key r = (resp_id r, resp_name r)"

text \<open>The part of the state the playback scheduler works on is the same in both states.\<close>

definition scheduler_frame :: "app_state \<Rightarrow> app_state \<Rightarrow> bool" where
  "scheduler_frame st st' =
     (nodes st' = nodes st \<and> nextStartTimeRef st' = nextStartTimeRef st
      \<and> audioContextRef st' = audioContextRef st \<and> analyserRef st' = analyserRef st
      \<and> audioSourcesRef st' = audioSourcesRef st \<and> isSpeaking st' = isSpeaking st)"

text \<open>
  Every reference in \<open>audioSourcesRef\<close> points into the store, to a node that was started.
  The audio branch pushes a node and starts it in one go, so this holds in every state the
  events of a session lead to (lemma \<open>refs_ok_run\<close> below).
\<close>

definition refs_ok :: "app_state \<Rightarrow> bool" where
  "refs_ok st =
     (\<forall>source\<in>set (audioSourcesRef st).
        source < length (nodes st) \<and> node_start (nodes st ! source) \<noteq> None)"

text \<open>
  A list of nodes is chained from \<open>m\<close>: every node was started, the first not before \<open>m\<close> and
  each further one not before the end (start plus duration) of the one before it.
\<close>

fun chained :: "real \<Rightarrow> AudioBufferSourceNode list \<Rightarrow> bool" where
  "chained m [] = True"
| "chained m (n # ns) =
     (case node_start n of
        None \<Rightarrow> False
      | Some s \<Rightarrow> m \<le> s \<and> chained (s + duration (node_buffer n)) ns)"

text \<open>
  The scenario of three inbound frames of 1.0 s, 0.5 s and 2.0 s, and the natural
  completions of the three nodes \<open>k\<close>, \<open>k + 1\<close>, \<open>k + 2\<close>, each at the end of its slot when the
  first slot starts at \<open>t0\<close>.
\<close>

definition three_frames :: "event list" where
  "three_frames =
     [Message (audio_message \<lparr>duration = 1\<rparr>), Message (audio_message \<lparr>duration = 1 / 2\<rparr>),
      Message (audio_message \<lparr>duration = 2\<rparr>)]"

definition completions :: "real \<Rightarrow> nat \<Rightarrow> event list" where
  "completions t0 k =
     [Clock (t0 + 1), Ended k, Clock (t0 + 3 / 2), Ended (k + 1), Clock (t0 + 7 / 2),
      Ended (k + 2)]"

section \<open>The tool dispatcher\<close>

lemma find_contact_None:
  "\<forall>c\<in>set MOCK_CONTACTS. toLowerCase (contact_name c) \<noteq> toLowerCase n \<Longrightarrow>
   find (\<lambda>c. toLowerCase (contact_name c) = toLowerCase n) MOCK_CONTACTS = None"
  by (simp add: find_None_iff)

text \<open>
  The switch throws exactly on the calls of \<open>throws_on\<close>, with a TypeError; otherwise it
  leaves the session, the action log and the scheduler as they are.
\<close>

lemma tool_switch_cases:
  "case tool_switch g fc st of
     Inl e \<Rightarrow> throws_on fc \<and> e = TypeError
   | Inr (result, st') \<Rightarrow> \<not> throws_on fc \<and> sessionRef st' = sessionRef st
        \<and> action_log st' = action_log st \<and> scheduler_frame st st'"
  by (simp add: tool_switch_def addLog_def action_log_def throws_on_def scheduler_frame_def Let_def
      split: option.splits gen_reply.splits)

lemma handleToolCall_cases:
  "case handleToolCall g fc st of
     Threw e st' \<Rightarrow> throws_on fc \<and> e = TypeError \<and> sessionRef st' = sessionRef st
        \<and> action_log st' = action_log st @ [protocol_entry fc]
        \<and> scheduler_frame st st'
   | Returned st' \<Rightarrow> \<not> throws_on fc
        \<and> (\<exists>result. sessionRef st' = map_option (sendToolResponse
              \<lparr>resp_id = fc_id fc, resp_name = fc_name fc, resp_result = result\<rparr>) (sessionRef st))
        \<and> action_log st' = action_log st @ [protocol_entry fc]
        \<and> scheduler_frame st st'"
proof -
  let ?st1 = "addLog (''Executing Protocol: '' @ fc_name fc) Action st"
  have st1: "sessionRef ?st1 = sessionRef st"
    "action_log ?st1 = action_log st @ [protocol_entry fc]"
    "scheduler_frame st ?st1"
    by (simp_all add: addLog_def action_log_def scheduler_frame_def protocol_entry_def)
  show ?thesis
  proof (cases "tool_switch g fc ?st1")
    case (Inl e)
    with tool_switch_cases[where g=g and fc=fc and st="?st1"] st1 show ?thesis
      by (simp add: handleToolCall_def)
  next
    case (Inr p)
    obtain result st2 where p: "p = (result, st2)" by (cases p)
    from tool_switch_cases[where g=g and fc=fc and st="?st1"] Inr p
    have fr: "\<not> throws_on fc" "sessionRef st2 = sessionRef st"
      "action_log st2 = action_log st @ [protocol_entry fc]"
      "scheduler_frame st st2"
      using st1 by (simp_all add: scheduler_frame_def)
    show ?thesis
    proof (cases "sessionRef st")
      case None
      with Inr p fr show ?thesis by (simp add: handleToolCall_def)
    next
      case (Some session)
      with Inr p fr show ?thesis
        by (auto simp add: handleToolCall_def action_log_def scheduler_frame_def)
    qed
  qed
qed

lemma sent_response:
  "sessionRef st' = map_option (sendToolResponse r) (sessionRef st) \<Longrightarrow>
   sessionRef st = Some s \<Longrightarrow> sent st' = sent st @ [r]"
  by (simp add: sent_def sendToolResponse_def)

text \<open>
  The loop over a batch, with a session: the responses sent are those of the calls before
  the first one that throws, in their order; the handlers entered are a prefix of the batch,
  in its order; the loop throws exactly when the switch throws on one of the calls.
\<close>

lemma toolCall_loop_order:
  assumes "sessionRef st = Some session"
  shows "\<exists>rs k. sent (state_of (toolCall_loop g fcs st)) = sent st @ rs
      \<and> sessionRef (state_of (toolCall_loop g fcs st)) \<noteq> None
      \<and> map response_key rs = map call_key (takeWhile (\<lambda>fc. \<not> throws_on fc) fcs)
      \<and> k \<le> length fcs
      \<and> action_log (state_of (toolCall_loop g fcs st)) =
           action_log st @ map protocol_entry (take k fcs)
      \<and> threw (toolCall_loop g fcs st) = (\<exists>fc\<in>set fcs. throws_on fc)
      \<and> (\<not> threw (toolCall_loop g fcs st) \<longrightarrow> k = length fcs)"
  using assms
proof (induction fcs arbitrary: st session)
  case Nil
  then show ?case by simp
next
  case (Cons fc fcs)
  show ?case
  proof (cases "handleToolCall g fc st")
    case (Threw e st')
    with handleToolCall_cases[where g=g and fc=fc and st=st] Cons.prems
    have "throws_on fc" "sent st' = sent st" "sessionRef st' \<noteq> None"
      "action_log st' = action_log st @ [protocol_entry fc]"
      by (simp_all add: sent_def)
    with Threw show ?thesis
      by (intro exI[of _ "[]"] exI[of _ "Suc 0"]) simp
  next
    case (Returned st')
    with handleToolCall_cases[where g=g and fc=fc and st=st]
    obtain result where h: "\<not> throws_on fc"
      "sessionRef st' = map_option (sendToolResponse
              \<lparr>resp_id = fc_id fc, resp_name = fc_name fc, resp_result = result\<rparr>) (sessionRef st)"
      "action_log st' = action_log st @ [protocol_entry fc]"
      by auto
    let ?r = "\<lparr>resp_id = fc_id fc, resp_name = fc_name fc, resp_result = result\<rparr>"
    from h(2) Cons.prems have s': "sent st' = sent st @ [?r]"
      and ex: "sessionRef st' = Some (sendToolResponse ?r session)"
      by (simp_all add: sent_response)
    from Cons.IH[OF ex] obtain rs k where
      ih: "sent (state_of (toolCall_loop g fcs st')) = sent st' @ rs"
        "sessionRef (state_of (toolCall_loop g fcs st')) \<noteq> None"
        "map response_key rs = map call_key (takeWhile (\<lambda>fc. \<not> throws_on fc) fcs)"
        "k \<le> length fcs"
        "action_log (state_of (toolCall_loop g fcs st')) =
           action_log st' @ map protocol_entry (take k fcs)"
        "threw (toolCall_loop g fcs st') = (\<exists>fc\<in>set fcs. throws_on fc)"
        "\<not> threw (toolCall_loop g fcs st') \<longrightarrow> k = length fcs"
      by blast
    have key: "response_key ?r = call_key fc"
      by (simp add: response_key_def call_key_def)
    show ?thesis
      using Returned h(1,3) s' ih key
      by (intro exI[of _ "?r # rs"] exI[of _ "Suc k"]) simp
  qed
qed

lemma scheduler_frame_refl: "scheduler_frame st st"
  by (simp add: scheduler_frame_def)

lemma scheduler_frame_trans:
  "scheduler_frame st st' \<Longrightarrow> scheduler_frame st' st'' \<Longrightarrow> scheduler_frame st st''"
  by (simp add: scheduler_frame_def)

lemma toolCall_loop_frame: "scheduler_frame st (state_of (toolCall_loop g fcs st))"
proof (induction fcs arbitrary: st)
  case Nil
  show ?case by (simp add: scheduler_frame_refl)
next
  case (Cons fc fcs)
  show ?case
  proof (cases "handleToolCall g fc st")
    case (Threw e st')
    with handleToolCall_cases[where g=g and fc=fc and st=st] show ?thesis by simp
  next
    case (Returned st')
    with handleToolCall_cases[where g=g and fc=fc and st=st]
    have "scheduler_frame st st'" by simp
    with Cons.IH[of st'] Returned show ?thesis
      by (simp add: scheduler_frame_trans)
  qed
qed

lemma grounding_branch_keeps:
  "sessionRef (grounding_branch chunks st) = sessionRef st"
  "logs (grounding_branch chunks st) = logs st"
  "scheduler_frame st (grounding_branch chunks st)"
  by (simp_all add: grounding_branch_def Let_def scheduler_frame_def)

lemma audio_branch_keeps:
  "sessionRef (audio_branch buffer st) = sessionRef st"
  "logs (audio_branch buffer st) = logs st"
  by (simp_all add: audio_branch_def Let_def split: option.splits)

lemma onmessage_tool_part:
  assumes "\<not> interrupted msg" "toolCall msg = Some fcs"
  shows "sent (state_of (onmessage g msg st)) = sent (state_of (toolCall_loop g fcs st))
    \<and> action_log (state_of (onmessage g msg st)) = action_log (state_of (toolCall_loop g fcs st))
    \<and> threw (onmessage g msg st) = threw (toolCall_loop g fcs st)"
  using assms
  by (cases "toolCall_loop g fcs st")
     (simp_all add: onmessage_def sent_def action_log_def grounding_branch_keeps
        audio_branch_keeps Let_def split: option.splits)

lemmas eval_defs = onmessage_def handleToolCall_def tool_switch_def addLog_def
  sendToolResponse_def connected_state_def initial_state_def sent_def action_log_def

text \<open>
  Claim C10. A \<open>make_call\<close> whose \<open>contactName\<close> matches no mock contact, compared in lower
  case, still succeeds: the handler returns, the phone state is in-call with the contact
  made up of the requested name and the number \<open>UNKNOWN\<close>, and the response sent on the
  session confirms that the call was initiated.
\<close>

theorem make_call_unknown_contact:
  assumes "fc_name fc = ''make_call''"
    and "fc_args fc ''contactName'' = Some requested"
    and "\<forall>c\<in>set MOCK_CONTACTS. toLowerCase (contact_name c) \<noteq> toLowerCase requested"
    and "sessionRef st = Some session"
  shows "\<exists>st'. handleToolCall generateContent fc st = Returned st' \<and>
           phoneState st' =
             \<lparr>isInCall = True,
              activeContact = Some \<lparr>contact_name = requested, contact_number = ''UNKNOWN''\<rparr>,
              callDuration = 0\<rparr> \<and>
           sessionRef st' = Some (session\<lparr>toolResponses := toolResponses session @
             [\<lparr>resp_id = fc_id fc, resp_name = ''make_call'',
               resp_result = ''Call Initiated. Info: Calling '' @ requested
                 @ '' at UNKNOWN. Confirm this to user.''\<rparr>]\<rparr>)"
  using assms(1,2,4) find_contact_None[OF assms(3)]
  by (simp add: handleToolCall_def tool_switch_def addLog_def sendToolResponse_def)

theorem make_call_unknown_contact_witness:
  "toLowerCase ''Tony'' \<notin> set (map (\<lambda>c. toLowerCase (contact_name c)) MOCK_CONTACTS) \<and>
   (\<exists>st'. handleToolCall (\<lambda>fc. Resolved None)
       \<lparr>fc_id = ''7'', fc_name = ''make_call'', fc_args = [''contactName'' \<mapsto> ''Tony'']\<rparr>
       (connected_state 0) = Returned st' \<and>
     phoneState st' =
       \<lparr>isInCall = True,
        activeContact = Some \<lparr>contact_name = ''Tony'', contact_number = ''UNKNOWN''\<rparr>,
        callDuration = 0\<rparr> \<and>
     sessionRef st' = Some \<lparr>session_closed = False, toolResponses =
       [\<lparr>resp_id = ''7'', resp_name = ''make_call'',
         resp_result = ''Call Initiated. Info: Calling Tony at UNKNOWN. Confirm this to user.''\<rparr>]\<rparr>)"
proof -
  let ?fc = "\<lparr>fc_id = ''7'', fc_name = ''make_call'', fc_args = [''contactName'' \<mapsto> ''Tony'']\<rparr>"
  have h1: "fc_name ?fc = ''make_call''" by simp
  have h2: "fc_args ?fc ''contactName'' = Some ''Tony''" by simp
  have h3: "\<forall>c\<in>set MOCK_CONTACTS. toLowerCase (contact_name c) \<noteq> toLowerCase ''Tony''"
    by (simp add: MOCK_CONTACTS_def toLowerCase_def lower_char_def)
  have h4: "sessionRef (connected_state 0) = Some \<lparr>session_closed = False, toolResponses = []\<rparr>"
    by (simp add: connected_state_def)
  show ?thesis
    using h3 make_call_unknown_contact[OF h1 h2 h3 h4, of "\<lambda>fc. Resolved None"]
    by auto
qed

text \<open>
  Claim C3, at the failing input. The claim asks for exactly one response to every
  dispatched call, also when the handler throws. A \<open>make_call\<close> whose arguments have no
  \<open>contactName\<close> makes \<open>args.contactName.toLowerCase()\<close> throw a TypeError: handleToolCall
  rejects after its log entry and nothing is sent on the session. In a batch the loop of
  onmessage ends there, so a \<open>set_reminder\<close> that follows is neither run nor answered.
\<close>

theorem make_call_without_contact_throws:
  "handleToolCall generateContent
     \<lparr>fc_id = ''c1'', fc_name = ''make_call'', fc_args = Map.empty\<rparr> (connected_state 0)
   = Threw TypeError (addLog ''Executing Protocol: make_call'' Action (connected_state 0))
   \<and> sent (state_of (handleToolCall generateContent
        \<lparr>fc_id = ''c1'', fc_name = ''make_call'', fc_args = Map.empty\<rparr> (connected_state 0)))
     = []
   \<and> threw (onmessage generateContent
        \<lparr>interrupted = False,
          toolCall = Some [\<lparr>fc_id = ''c1'', fc_name = ''make_call'', fc_args = Map.empty\<rparr>,
                           \<lparr>fc_id = ''c2'', fc_name = ''set_reminder'',
                             fc_args = [''task'' \<mapsto> ''buy milk'']\<rparr>],
          groundingChunks = None, audioData = None\<rparr> (connected_state 0))
   \<and> sent (state_of (onmessage generateContent
        \<lparr>interrupted = False,
          toolCall = Some [\<lparr>fc_id = ''c1'', fc_name = ''make_call'', fc_args = Map.empty\<rparr>,
                           \<lparr>fc_id = ''c2'', fc_name = ''set_reminder'',
                             fc_args = [''task'' \<mapsto> ''buy milk'']\<rparr>],
          groundingChunks = None, audioData = None\<rparr> (connected_state 0))) = []
   \<and> reminders (state_of (onmessage generateContent
        \<lparr>interrupted = False,
          toolCall = Some [\<lparr>fc_id = ''c1'', fc_name = ''make_call'', fc_args = Map.empty\<rparr>,
                           \<lparr>fc_id = ''c2'', fc_name = ''set_reminder'',
                             fc_args = [''task'' \<mapsto> ''buy milk'']\<rparr>],
          groundingChunks = None, audioData = None\<rparr> (connected_state 0))) = []"
  by (simp add: eval_defs)

text \<open>
  Claim C4, as stated, fails: in the batch of the spec's scenario the call of the
  undeclared tool \<open>unknown_tool\<close> is answered with the result \<open>Done\<close>, the initial value of
  \<open>result\<close>, which says nothing about the tool not being recognised.
\<close>

theorem unknown_tool_answers_Done:
  "''unknown_tool'' \<notin> set toolsDef \<and>
   sent (state_of (onmessage (\<lambda>fc. Resolved None)
      \<lparr>interrupted = False,
        toolCall = Some [\<lparr>fc_id = ''a'', fc_name = ''set_reminder'',
                           fc_args = [''task'' \<mapsto> ''buy milk'']\<rparr>,
                         \<lparr>fc_id = ''b'', fc_name = ''unknown_tool'', fc_args = Map.empty\<rparr>],
        groundingChunks = None, audioData = None\<rparr>
      (connected_state 0)))
   = [\<lparr>resp_id = ''a'', resp_name = ''set_reminder'',
        resp_result = ''Memory stored: buy milk. Confirm to user.''\<rparr>,
      \<lparr>resp_id = ''b'', resp_name = ''unknown_tool'', resp_result = ''Done''\<rparr>]"
  by (simp add: eval_defs toolsDef_def)

text \<open>
  Claim C4, amended. For a call whose name is none of the eight declared tools the
  dispatcher writes its log entry, changes nothing else, and sends (when there is a
  session) one response with the id and name of the call and the result \<open>Done\<close>.
\<close>

theorem unknown_tool_default_result:
  assumes "fc_name fc \<notin> set toolsDef"
  shows "handleToolCall generateContent fc st =
    Returned ((addLog (''Executing Protocol: '' @ fc_name fc) Action st)
      \<lparr>sessionRef := map_option (sendToolResponse
          \<lparr>resp_id = fc_id fc, resp_name = fc_name fc, resp_result = ''Done''\<rparr>) (sessionRef st)\<rparr>)"
  using assms
  by (cases "sessionRef st")
     (simp_all add: handleToolCall_def tool_switch_def addLog_def toolsDef_def)

theorem unknown_tool_default_result_witness:
  "''open_pod_bay_doors'' \<notin> set toolsDef \<and>
   sent (state_of (handleToolCall (\<lambda>fc. Resolved None)
     \<lparr>fc_id = ''9'', fc_name = ''open_pod_bay_doors'', fc_args = Map.empty\<rparr> (connected_state 0)))
   = [\<lparr>resp_id = ''9'', resp_name = ''open_pod_bay_doors'', resp_result = ''Done''\<rparr>]"
proof -
  let ?fc = "\<lparr>fc_id = ''9'', fc_name = ''open_pod_bay_doors'', fc_args = Map.empty\<rparr>"
  have h: "fc_name ?fc \<notin> set toolsDef" by (simp add: toolsDef_def)
  show ?thesis
    using h unknown_tool_default_result[OF h, of "\<lambda>fc. Resolved None" "connected_state 0"]
    by (simp add: sent_def addLog_def sendToolResponse_def connected_state_def initial_state_def)
qed

text \<open>
  What holds of every message that carries a batch of function calls (and is no
  interruption), with a session: the handlers entered are a prefix of the batch, in its
  order, and the responses sent are those of the calls before the first one whose handler
  throws, in the same order. Only when no handler throws is the whole batch entered and
  answered.
\<close>

lemma toolCall_batch_prefix:
  assumes "\<not> interrupted msg" and "toolCall msg = Some fcs" and "sessionRef st = Some session"
  shows "\<exists>rs k. sent (state_of (onmessage g msg st)) = sent st @ rs
      \<and> map response_key rs = map call_key (takeWhile (\<lambda>fc. \<not> throws_on fc) fcs)
      \<and> prefix (map response_key rs) (map call_key fcs)
      \<and> k \<le> length fcs
      \<and> action_log (state_of (onmessage g msg st)) = action_log st @ map protocol_entry (take k fcs)
      \<and> ((\<forall>fc\<in>set fcs. \<not> throws_on fc) \<longrightarrow>
            \<not> threw (onmessage g msg st) \<and> map response_key rs = map call_key fcs
            \<and> action_log (state_of (onmessage g msg st)) = action_log st @ map protocol_entry fcs)"
proof -
  from toolCall_loop_order[OF assms(3), of g fcs] obtain rs k where
    h: "sent (state_of (toolCall_loop g fcs st)) = sent st @ rs"
       "map response_key rs = map call_key (takeWhile (\<lambda>fc. \<not> throws_on fc) fcs)"
       "k \<le> length fcs"
       "action_log (state_of (toolCall_loop g fcs st)) = action_log st @ map protocol_entry (take k fcs)"
       "threw (toolCall_loop g fcs st) = (\<exists>fc\<in>set fcs. throws_on fc)"
       "\<not> threw (toolCall_loop g fcs st) \<longrightarrow> k = length fcs"
    by blast
  have pre: "prefix (map response_key rs) (map call_key fcs)"
    unfolding h(2) by (metis map_mono_prefix prefixI takeWhile_dropWhile_id)
  have full: "map response_key rs = map call_key fcs \<and> k = length fcs
      \<and> \<not> threw (toolCall_loop g fcs st)"
    if "\<forall>fc\<in>set fcs. \<not> throws_on fc"
  proof -
    from that have "takeWhile (\<lambda>fc. \<not> throws_on fc) fcs = fcs"
      by simp
    with h that show ?thesis by simp
  qed
  have tool: "sent (state_of (onmessage g msg st)) = sent (state_of (toolCall_loop g fcs st))"
    "action_log (state_of (onmessage g msg st)) = action_log (state_of (toolCall_loop g fcs st))"
    "threw (onmessage g msg st) = threw (toolCall_loop g fcs st)"
    using onmessage_tool_part[OF assms(1,2), of g st] by simp_all
  show ?thesis
  proof (intro exI[of _ rs] exI[of _ k] conjI impI)
    show "sent (state_of (onmessage g msg st)) = sent st @ rs" using tool h by simp
    show "map response_key rs = map call_key (takeWhile (\<lambda>fc. \<not> throws_on fc) fcs)" by (rule h)
    show "prefix (map response_key rs) (map call_key fcs)" by (rule pre)
    show "k \<le> length fcs" by (rule h)
    show "action_log (state_of (onmessage g msg st)) = action_log st @ map protocol_entry (take k fcs)"
      using tool h by simp
  next
    assume a: "\<forall>fc\<in>set fcs. \<not> throws_on fc"
    show "\<not> threw (onmessage g msg st)" using full[OF a] tool by simp
    show "map response_key rs = map call_key fcs" using full[OF a] by simp
    show "action_log (state_of (onmessage g msg st)) = action_log st @ map protocol_entry fcs"
      using full[OF a] tool h by simp
  qed
qed

text \<open>
  Claim C5, at the failing input. The claim asks that the calls of every batch are
  dispatched in the order received and answered in that order. In the batch
  \<open>set_reminder\<close>, \<open>make_call\<close> without \<open>contactName\<close>, \<open>set_reminder\<close> the second handler throws
  (the TypeError of claim C3); the loop of onmessage ends with it, so the third call is
  never dispatched: only the first call is answered, only the first two handlers are
  entered, and only the first reminder is stored.
\<close>

theorem tool_batch_stops_at_throw:
  "threw (onmessage generateContent
      \<lparr>interrupted = False,
        toolCall = Some [\<lparr>fc_id = ''a'', fc_name = ''set_reminder'',
                           fc_args = [''task'' \<mapsto> ''buy milk'']\<rparr>,
                         \<lparr>fc_id = ''b'', fc_name = ''make_call'', fc_args = Map.empty\<rparr>,
                         \<lparr>fc_id = ''c'', fc_name = ''set_reminder'',
                           fc_args = [''task'' \<mapsto> ''call mom'']\<rparr>],
        groundingChunks = None, audioData = None\<rparr> (connected_state 0))
   \<and> sent (state_of (onmessage generateContent
      \<lparr>interrupted = False,
        toolCall = Some [\<lparr>fc_id = ''a'', fc_name = ''set_reminder'',
                           fc_args = [''task'' \<mapsto> ''buy milk'']\<rparr>,
                         \<lparr>fc_id = ''b'', fc_name = ''make_call'', fc_args = Map.empty\<rparr>,
                         \<lparr>fc_id = ''c'', fc_name = ''set_reminder'',
                           fc_args = [''task'' \<mapsto> ''call mom'']\<rparr>],
        groundingChunks = None, audioData = None\<rparr> (connected_state 0)))
     = [\<lparr>resp_id = ''a'', resp_name = ''set_reminder'',
          resp_result = ''Memory stored: buy milk. Confirm to user.''\<rparr>]
   \<and> action_log (state_of (onmessage generateContent
      \<lparr>interrupted = False,
        toolCall = Some [\<lparr>fc_id = ''a'', fc_name = ''set_reminder'',
                           fc_args = [''task'' \<mapsto> ''buy milk'']\<rparr>,
                         \<lparr>fc_id = ''b'', fc_name = ''make_call'', fc_args = Map.empty\<rparr>,
                         \<lparr>fc_id = ''c'', fc_name = ''set_reminder'',
                           fc_args = [''task'' \<mapsto> ''call mom'']\<rparr>],
        groundingChunks = None, audioData = None\<rparr> (connected_state 0)))
     = [''Executing Protocol: set_reminder'', ''Executing Protocol: make_call'']
   \<and> reminders (state_of (onmessage generateContent
      \<lparr>interrupted = False,
        toolCall = Some [\<lparr>fc_id = ''a'', fc_name = ''set_reminder'',
                           fc_args = [''task'' \<mapsto> ''buy milk'']\<rparr>,
                         \<lparr>fc_id = ''b'', fc_name = ''make_call'', fc_args = Map.empty\<rparr>,
                         \<lparr>fc_id = ''c'', fc_name = ''set_reminder'',
                           fc_args = [''task'' \<mapsto> ''call mom'']\<rparr>],
        groundingChunks = None, audioData = None\<rparr> (connected_state 0)))
     = [\<lparr>task = Some ''buy milk'', reminder_time = ''Today'', completed = False\<rparr>]"
  by (simp add: eval_defs)

section \<open>The playback scheduler\<close>

subsection \<open>Stopping\<close>

lemma length_try_stop: "length (try_stop i ns) = length ns"
  by (simp add: try_stop_def source_stop_def)

lemma try_stop_nth:
  "j < length ns \<Longrightarrow>
   try_stop i ns ! j =
     (if j = i \<and> node_start (ns ! i) \<noteq> None then (ns ! i)\<lparr>node_stopped := True\<rparr> else ns ! j)"
  by (auto simp add: try_stop_def source_stop_def nth_list_update)

lemma length_fold_try_stop: "length (fold try_stop xs ns) = length ns"
  by (induction xs arbitrary: ns) (simp_all add: length_try_stop)

lemma fold_try_stop_nth:
  "j < length ns \<Longrightarrow>
   fold try_stop xs ns ! j =
     (if j \<in> set xs \<and> node_start (ns ! j) \<noteq> None then (ns ! j)\<lparr>node_stopped := True\<rparr>
      else ns ! j)"
proof (induction xs arbitrary: ns)
  case Nil
  then show ?case by simp
next
  case (Cons x xs)
  from Cons.prems have "j < length (try_stop x ns)" by (simp add: length_try_stop)
  from Cons.IH[OF this] Cons.prems show ?case
    by (auto simp add: try_stop_nth)
qed

lemma stopAllAudio_fields:
  "nodes (stopAllAudio st) = fold try_stop (audioSourcesRef st) (nodes st)"
  "audioSourcesRef (stopAllAudio st) = []"
  "\<not> isSpeaking (stopAllAudio st)"
  "audioContextRef (stopAllAudio st) = audioContextRef st"
  "analyserRef (stopAllAudio st) = analyserRef st"
  "audioContextRef st = Some ctx \<Longrightarrow> nextStartTimeRef (stopAllAudio st) = currentTime ctx"
  "audioContextRef st = None \<Longrightarrow> nextStartTimeRef (stopAllAudio st) = nextStartTimeRef st"
  by (simp_all add: stopAllAudio_def Let_def split: option.splits)

lemma stopAllAudio_idem: "stopAllAudio (stopAllAudio st) = stopAllAudio st"
  by (cases "audioContextRef st") (simp_all add: stopAllAudio_def Let_def)

lemma stopAllAudio_set_clock:
  "stopAllAudio (set_clock t (stopAllAudio st)) = stopAllAudio (set_clock t st)"
  by (cases "audioContextRef st") (simp_all add: stopAllAudio_def set_clock_def Let_def)

lemma onmessage_audio_message:
  "onmessage g (audio_message buffer) st = Returned (audio_branch buffer st)"
  by (simp add: onmessage_def audio_message_def)

lemma audio_branch_schedules:
  assumes "audioContextRef st = Some ctx" and "analyserRef st = Some a"
  shows "nodes (audio_branch buffer st) = nodes st @
           [\<lparr>node_buffer = buffer,
             node_start = Some (max (currentTime ctx) (nextStartTimeRef st)),
             node_stopped = False\<rparr>]"
    and "nextStartTimeRef (audio_branch buffer st) =
           max (currentTime ctx) (nextStartTimeRef st) + duration buffer"
    and "audioSourcesRef (audio_branch buffer st) = audioSourcesRef st @ [length (nodes st)]"
    and "isSpeaking (audio_branch buffer st)"
    and "audioContextRef (audio_branch buffer st) = audioContextRef st"
    and "analyserRef (audio_branch buffer st) = analyserRef st"
  using assms by (simp_all add: audio_branch_def Let_def)

subsection \<open>Scheduling without interruption\<close>

lemma chained_adjacent:
  "chained m ns \<Longrightarrow> Suc i < length ns \<Longrightarrow>
   \<exists>s s'. node_start (ns ! i) = Some s \<and> node_start (ns ! Suc i) = Some s'
      \<and> s + duration (node_buffer (ns ! i)) \<le> s'"
proof (induction ns arbitrary: m i)
  case Nil
  then show ?case by simp
next
  case (Cons n ns)
  from Cons.prems(1) obtain s where s: "node_start n = Some s"
    "chained (s + duration (node_buffer n)) ns"
    by (auto split: option.splits)
  show ?case
  proof (cases i)
    case 0
    with Cons.prems(2) obtain n' rest where ns: "ns = n' # rest" by (cases ns) auto
    with s(2) 0 s(1) show ?thesis by (auto split: option.splits)
  next
    case (Suc j)
    with Cons.prems(2) have "Suc j < length ns" by simp
    from Cons.IH[OF s(2) this] Suc show ?thesis by simp
  qed
qed

lemma onmessage_scheduler:
  assumes "\<not> interrupted msg"
  shows "\<exists>st2. scheduler_frame st st2 \<and>
     (state_of (onmessage g msg st) = st2 \<or>
      (\<exists>buffer. state_of (onmessage g msg st) = audio_branch buffer st2))"
proof -
  define c where "c = (case toolCall msg of None \<Rightarrow> Returned st
                       | Some functionCalls \<Rightarrow> toolCall_loop g functionCalls st)"
  have fr: "scheduler_frame st (state_of c)"
    unfolding c_def
    by (cases "toolCall msg") (simp_all add: scheduler_frame_refl toolCall_loop_frame)
  show ?thesis
  proof (cases c)
    case (Threw e st1)
    with fr assms show ?thesis
      by (intro exI[of _ st1]) (simp add: onmessage_def c_def[symmetric])
  next
    case (Returned st1)
    define st2 where "st2 = (case groundingChunks msg of None \<Rightarrow> st1
                             | Some chunks \<Rightarrow> grounding_branch chunks st1)"
    have "scheduler_frame st1 st2"
      unfolding st2_def
      by (cases "groundingChunks msg") (simp_all add: scheduler_frame_refl grounding_branch_keeps)
    with fr Returned have f2: "scheduler_frame st st2"
      by (auto intro: scheduler_frame_trans)
    have "state_of (onmessage g msg st) =
        (case audioData msg of None \<Rightarrow> st2 | Some buffer \<Rightarrow> audio_branch buffer st2)"
      unfolding st2_def using assms Returned
      by (simp add: onmessage_def c_def[symmetric] Let_def)
    with f2 show ?thesis
      by (intro exI[of _ st2]) (auto split: option.splits)
  qed
qed

lemma audio_branch_cases:
  "audio_branch buffer st = st \<or>
   (\<exists>ctx a. audioContextRef st = Some ctx \<and> analyserRef st = Some a)"
  by (auto simp add: audio_branch_def split: option.splits)

lemma step_scheduler:
  assumes "uninterrupted e"
  shows "(nodes (step g e st) = nodes st \<and> nextStartTimeRef (step g e st) = nextStartTimeRef st)
    \<or> (\<exists>b s. nextStartTimeRef st \<le> s
          \<and> nodes (step g e st) = nodes st @ [\<lparr>node_buffer = b, node_start = Some s, node_stopped = False\<rparr>]
          \<and> nextStartTimeRef (step g e st) = s + duration b)"
proof (cases e)
  case (Clock t)
  then show ?thesis by (simp add: set_clock_def)
next
  case (Ended source)
  then show ?thesis by (simp add: onended_def Let_def split: option.splits)
next
  case (Message msg)
  with assms have ni: "\<not> interrupted msg" by simp
  from onmessage_scheduler[OF ni, of st g] obtain st2 where
    f: "scheduler_frame st st2" and
    d: "state_of (onmessage g msg st) = st2 \<or>
      (\<exists>buffer. state_of (onmessage g msg st) = audio_branch buffer st2)"
    by blast
  from d show ?thesis
  proof
    assume "state_of (onmessage g msg st) = st2"
    with f Message show ?thesis by (simp add: scheduler_frame_def)
  next
    assume "\<exists>buffer. state_of (onmessage g msg st) = audio_branch buffer st2"
    then obtain buffer where b: "state_of (onmessage g msg st) = audio_branch buffer st2" ..
    from audio_branch_cases[of buffer st2] show ?thesis
    proof
      assume "audio_branch buffer st2 = st2"
      with b f Message show ?thesis by (simp add: scheduler_frame_def)
    next
      assume "\<exists>ctx a. audioContextRef st2 = Some ctx \<and> analyserRef st2 = Some a"
      then obtain ctx a where ca: "audioContextRef st2 = Some ctx" "analyserRef st2 = Some a"
        by blast
      have "nextStartTimeRef st \<le> max (currentTime ctx) (nextStartTimeRef st)" by simp
      with audio_branch_schedules(1,2)[OF ca, of buffer] b f Message show ?thesis
        by (intro disjI2 exI[of _ buffer] exI[of _ "max (currentTime ctx) (nextStartTimeRef st)"])
           (simp add: scheduler_frame_def)
    qed
  qed
qed

lemma run_chained:
  assumes "\<forall>e\<in>set evs. uninterrupted e"
  shows "\<exists>new. nodes (run g evs st) = nodes st @ new \<and> chained (nextStartTimeRef st) new"
  using assms
proof (induction evs arbitrary: st)
  case Nil
  then show ?case by (simp add: run_def)
next
  case (Cons e evs)
  then have u: "uninterrupted e" and us: "\<forall>e\<in>set evs. uninterrupted e" by simp_all
  from Cons.IH[OF us, of "step g e st"] obtain new where
    ih: "nodes (run g evs (step g e st)) = nodes (step g e st) @ new"
        "chained (nextStartTimeRef (step g e st)) new"
    by blast
  have r: "run g (e # evs) st = run g evs (step g e st)" by (simp add: run_def)
  from step_scheduler[OF u, of g st] show ?case
  proof
    assume "nodes (step g e st) = nodes st \<and> nextStartTimeRef (step g e st) = nextStartTimeRef st"
    with ih r show ?thesis by auto
  next
    assume "\<exists>b s. nextStartTimeRef st \<le> s
          \<and> nodes (step g e st) = nodes st @ [\<lparr>node_buffer = b, node_start = Some s, node_stopped = False\<rparr>]
          \<and> nextStartTimeRef (step g e st) = s + duration b"
    then obtain b s where h: "nextStartTimeRef st \<le> s"
      "nodes (step g e st) = nodes st @ [\<lparr>node_buffer = b, node_start = Some s, node_stopped = False\<rparr>]"
      "nextStartTimeRef (step g e st) = s + duration b" by blast
    with ih r show ?thesis
      by (intro exI[of _ "\<lparr>node_buffer = b, node_start = Some s, node_stopped = False\<rparr> # new"]) simp
  qed
qed

subsection \<open>The references stay valid\<close>

lemma refs_ok_frame:
  "scheduler_frame st st' \<Longrightarrow> refs_ok st \<Longrightarrow> refs_ok st'"
  by (simp add: scheduler_frame_def refs_ok_def)

lemma refs_ok_audio_branch: "refs_ok st \<Longrightarrow> refs_ok (audio_branch buffer st)"
  by (auto simp add: audio_branch_def refs_ok_def Let_def nth_append split: option.splits)

lemma refs_ok_step: "refs_ok st \<Longrightarrow> refs_ok (step g e st)"
proof (cases e)
  case (Clock t)
  assume "refs_ok st"
  with Clock show ?thesis by (simp add: refs_ok_def set_clock_def)
next
  case (Ended source)
  assume "refs_ok st"
  with Ended show ?thesis by (simp add: refs_ok_def onended_def Let_def split: option.splits)
next
  case (Message msg)
  assume ok: "refs_ok st"
  show ?thesis
  proof (cases "interrupted msg")
    case True
    with Message show ?thesis by (simp add: onmessage_def refs_ok_def stopAllAudio_fields)
  next
    case False
    from onmessage_scheduler[OF False, of st g] obtain st2 where
      "scheduler_frame st st2"
      "state_of (onmessage g msg st) = st2 \<or>
        (\<exists>buffer. state_of (onmessage g msg st) = audio_branch buffer st2)"
      by blast
    with ok Message show ?thesis
      by (auto dest: refs_ok_frame simp add: refs_ok_audio_branch)
  qed
qed

lemma refs_ok_run: "refs_ok st \<Longrightarrow> refs_ok (run g evs st)"
  unfolding run_def by (induction evs arbitrary: st) (simp_all add: refs_ok_step)

lemma refs_ok_connected_state: "refs_ok (connected_state t)"
  by (simp add: refs_ok_def connected_state_def initial_state_def)

lemmas run_defs = run_def onmessage_audio_message audio_branch_def set_clock_def onended_def Let_def

text \<open>
  Claim C1. An audio message that reaches the scheduler (audio context and analyser set)
  appends one node, started at the maximum of the clock and the marker, and sets the marker
  to that start time plus the duration of the buffer. Hence, over any sequence of events
  without an interruption, of two nodes created one after the other the second starts no
  earlier than the first one ends (its start plus its duration), and no earlier than the
  first one starts when the duration is not negative.
\<close>

theorem playback_gapless:
  assumes "\<forall>e\<in>set evs. uninterrupted e"
  shows "(\<forall>st0 buffer ctx. audioContextRef st0 = Some ctx \<and> analyserRef st0 \<noteq> None \<longrightarrow>
            nodes (state_of (onmessage g (audio_message buffer) st0)) = nodes st0 @
              [\<lparr>node_buffer = buffer,
                node_start = Some (max (currentTime ctx) (nextStartTimeRef st0)),
                node_stopped = False\<rparr>]
            \<and> nextStartTimeRef (state_of (onmessage g (audio_message buffer) st0)) =
                max (currentTime ctx) (nextStartTimeRef st0) + duration buffer)
     \<and> (\<forall>i. length (nodes st) \<le> i \<and> Suc i < length (nodes (run g evs st)) \<longrightarrow>
          (\<exists>s s'. node_start (nodes (run g evs st) ! i) = Some s
             \<and> node_start (nodes (run g evs st) ! Suc i) = Some s'
             \<and> s + duration (node_buffer (nodes (run g evs st) ! i)) \<le> s'
             \<and> (0 \<le> duration (node_buffer (nodes (run g evs st) ! i)) \<longrightarrow> s \<le> s')))"
proof (intro conjI allI impI)
  fix st0 :: app_state and buffer :: AudioBuffer and ctx :: AudioContext
  assume h: "audioContextRef st0 = Some ctx \<and> analyserRef st0 \<noteq> None"
  then obtain a where a: "audioContextRef st0 = Some ctx" "analyserRef st0 = Some a" by auto
  show "nodes (state_of (onmessage g (audio_message buffer) st0)) = nodes st0 @
              [\<lparr>node_buffer = buffer,
                node_start = Some (max (currentTime ctx) (nextStartTimeRef st0)),
                node_stopped = False\<rparr>]"
    by (simp add: onmessage_audio_message audio_branch_schedules(1)[OF a])
  show "nextStartTimeRef (state_of (onmessage g (audio_message buffer) st0)) =
                max (currentTime ctx) (nextStartTimeRef st0) + duration buffer"
    by (simp add: onmessage_audio_message audio_branch_schedules(2)[OF a])
next
  fix i
  assume i: "length (nodes st) \<le> i \<and> Suc i < length (nodes (run g evs st))"
  from run_chained[OF assms, of g st] obtain new where
    n: "nodes (run g evs st) = nodes st @ new" "chained (nextStartTimeRef st) new" by blast
  define j where "j = i - length (nodes st)"
  from i n(1) have j: "Suc j < length new" "nodes (run g evs st) ! i = new ! j"
    "nodes (run g evs st) ! Suc i = new ! Suc j"
    by (auto simp add: j_def nth_append Suc_diff_le)
  from chained_adjacent[OF n(2) j(1)] obtain s s' where
    "node_start (new ! j) = Some s" "node_start (new ! Suc j) = Some s'"
    "s + duration (node_buffer (new ! j)) \<le> s'" by blast
  with j(2,3) show "\<exists>s s'. node_start (nodes (run g evs st) ! i) = Some s
             \<and> node_start (nodes (run g evs st) ! Suc i) = Some s'
             \<and> s + duration (node_buffer (nodes (run g evs st) ! i)) \<le> s'
             \<and> (0 \<le> duration (node_buffer (nodes (run g evs st) ! i)) \<longrightarrow> s \<le> s')"
    by (intro exI[of _ s] exI[of _ s']) auto
qed

theorem playback_gapless_witness:
  "nodes (state_of (onmessage (\<lambda>fc. Resolved None) (audio_message \<lparr>duration = 1\<rparr>)
      (connected_state 5))) =
     [\<lparr>node_buffer = \<lparr>duration = 1\<rparr>, node_start = Some 5, node_stopped = False\<rparr>]
   \<and> nextStartTimeRef (state_of (onmessage (\<lambda>fc. Resolved None)
      (audio_message \<lparr>duration = 1\<rparr>) (connected_state 5))) = 6
   \<and> (\<exists>s s'. node_start (nodes (run (\<lambda>fc. Resolved None) three_frames (connected_state 5)) ! 0)
          = Some s
      \<and> node_start (nodes (run (\<lambda>fc. Resolved None) three_frames (connected_state 5)) ! Suc 0)
          = Some s'
      \<and> s + duration (node_buffer
            (nodes (run (\<lambda>fc. Resolved None) three_frames (connected_state 5)) ! 0)) \<le> s'
      \<and> s \<le> s')"
proof -
  let ?g = "\<lambda>fc::ToolCall. Resolved None"
  let ?ctx = "\<lparr>currentTime = 5, ctx_closed = False\<rparr>"
  have h: "\<forall>e\<in>set three_frames. uninterrupted e"
    by (simp add: three_frames_def audio_message_def)
  note t = playback_gapless[OF h, of ?g "connected_state 5"]
  have c: "audioContextRef (connected_state 5) = Some ?ctx \<and> analyserRef (connected_state 5) \<noteq> None"
    by (simp add: connected_state_def)
  have m: "nextStartTimeRef (connected_state 5) = 0" "nodes (connected_state 5) = []"
    by (simp_all add: connected_state_def initial_state_def)
  from t[THEN conjunct1, rule_format, OF c, of "\<lparr>duration = 1\<rparr>"] m
  have 1: "nodes (state_of (onmessage ?g (audio_message \<lparr>duration = 1\<rparr>) (connected_state 5))) =
     [\<lparr>node_buffer = \<lparr>duration = 1\<rparr>, node_start = Some 5, node_stopped = False\<rparr>]"
    and 2: "nextStartTimeRef (state_of (onmessage ?g (audio_message \<lparr>duration = 1\<rparr>)
      (connected_state 5))) = 6"
    by simp_all
  have l: "length (nodes (connected_state 5)) \<le> 0
      \<and> Suc 0 < length (nodes (run ?g three_frames (connected_state 5)))"
    by (simp add: three_frames_def run_defs connected_state_def initial_state_def)
  have d: "0 \<le> duration (node_buffer (nodes (run ?g three_frames (connected_state 5)) ! 0))"
    by (simp add: three_frames_def run_defs connected_state_def initial_state_def)
  from t[THEN conjunct2, rule_format, OF l] d
  have 3: "\<exists>s s'. node_start (nodes (run ?g three_frames (connected_state 5)) ! 0) = Some s
      \<and> node_start (nodes (run ?g three_frames (connected_state 5)) ! Suc 0) = Some s'
      \<and> s + duration (node_buffer (nodes (run ?g three_frames (connected_state 5)) ! 0)) \<le> s'
      \<and> s \<le> s'"
    by blast
  from 1 2 3 show ?thesis by blast
qed

text \<open>
  Claim C2. An interruption (a message with \<open>interrupted\<close> set, which runs stopAllAudio and
  returns), in a state with an audio context: every node referenced by the active set is
  stopped, the active set is empty afterwards, the marker is the clock and nothing is
  speaking; an audio message handled at any later clock reading \<open>t\<close> is started at \<open>t\<close>, whatever
  the marker was before; a second interruption returns the state unchanged, and at a
  later clock reading two interruptions leave the state that one leaves.
\<close>

theorem interrupt_stops_and_resets:
  assumes "interrupted msg"
    and "audioContextRef st = Some ctx"
    and "refs_ok st"
  shows "\<exists>st'. onmessage g msg st = Returned st'
      \<and> length (nodes st') = length (nodes st)
      \<and> (\<forall>source\<in>set (audioSourcesRef st). node_stopped (nodes st' ! source))
      \<and> audioSourcesRef st' = []
      \<and> nextStartTimeRef st' = currentTime ctx
      \<and> \<not> isSpeaking st'
      \<and> (\<forall>t buffer. currentTime ctx \<le> t \<and> analyserRef st \<noteq> None \<longrightarrow>
            nodes (state_of (onmessage g (audio_message buffer) (set_clock t st'))) =
              nodes st' @ [\<lparr>node_buffer = buffer, node_start = Some t, node_stopped = False\<rparr>])
      \<and> onmessage g msg st' = Returned st'
      \<and> (\<forall>t. onmessage g msg (set_clock t st') = onmessage g msg (set_clock t st))"
proof (intro exI[of _ "stopAllAudio st"] conjI ballI allI impI)
  show "onmessage g msg st = Returned (stopAllAudio st)"
    using assms(1) by (simp add: onmessage_def)
  show "length (nodes (stopAllAudio st)) = length (nodes st)"
    by (simp add: stopAllAudio_fields length_fold_try_stop)
  show "audioSourcesRef (stopAllAudio st) = []" by (simp add: stopAllAudio_fields)
  show "nextStartTimeRef (stopAllAudio st) = currentTime ctx"
    using assms(2) by (simp add: stopAllAudio_fields)
  show "\<not> isSpeaking (stopAllAudio st)" by (simp add: stopAllAudio_fields)
  show "onmessage g msg (stopAllAudio st) = Returned (stopAllAudio st)"
    using assms(1) by (simp add: onmessage_def stopAllAudio_idem)
next
  fix source assume "source \<in> set (audioSourcesRef st)"
  with assms(3) show "node_stopped (nodes (stopAllAudio st) ! source)"
    by (simp add: refs_ok_def stopAllAudio_fields fold_try_stop_nth)
next
  fix t show "onmessage g msg (set_clock t (stopAllAudio st)) = onmessage g msg (set_clock t st)"
    using assms(1) by (simp add: onmessage_def stopAllAudio_set_clock)
next
  fix t buffer
  assume h: "currentTime ctx \<le> t \<and> analyserRef st \<noteq> None"
  then obtain a where a: "analyserRef st = Some a" by auto
  let ?st = "set_clock t (stopAllAudio st)"
  have c: "audioContextRef ?st = Some (ctx\<lparr>currentTime := t\<rparr>)"
    using assms(2) by (simp add: set_clock_def stopAllAudio_fields)
  have an: "analyserRef ?st = Some a"
    using a by (simp add: set_clock_def stopAllAudio_fields)
  have m: "nextStartTimeRef ?st = currentTime ctx" "nodes ?st = nodes (stopAllAudio st)"
    using assms(2) by (simp_all add: set_clock_def stopAllAudio_fields)
  show "nodes (state_of (onmessage g (audio_message buffer) ?st)) =
      nodes (stopAllAudio st) @ [\<lparr>node_buffer = buffer, node_start = Some t, node_stopped = False\<rparr>]"
    using h m by (simp add: onmessage_audio_message audio_branch_schedules(1)[OF c an] max_def)
qed

theorem interrupt_stops_and_resets_witness:
  "nextStartTimeRef (run (\<lambda>fc. Resolved None)
       [Message (audio_message \<lparr>duration = 1\<rparr>), Message (audio_message \<lparr>duration = 1 / 2\<rparr>),
        Clock (7 / 10)] (connected_state 0)) = 3 / 2
   \<and> (\<exists>st'. onmessage (\<lambda>fc. Resolved None)
          \<lparr>interrupted = True, toolCall = None, groundingChunks = None, audioData = None\<rparr>
          (run (\<lambda>fc. Resolved None)
            [Message (audio_message \<lparr>duration = 1\<rparr>), Message (audio_message \<lparr>duration = 1 / 2\<rparr>),
             Clock (7 / 10)] (connected_state 0)) = Returned st'
        \<and> node_stopped (nodes st' ! 0) \<and> node_stopped (nodes st' ! 1)
        \<and> audioSourcesRef st' = [] \<and> nextStartTimeRef st' = 7 / 10
        \<and> nodes (state_of (onmessage (\<lambda>fc. Resolved None) (audio_message \<lparr>duration = 1\<rparr>)
              (set_clock (8 / 10) st'))) =
            nodes st' @ [\<lparr>node_buffer = \<lparr>duration = 1\<rparr>, node_start = Some (8 / 10),
                          node_stopped = False\<rparr>])"
proof -
  let ?g = "\<lambda>fc::ToolCall. Resolved None"
  let ?msg = "\<lparr>interrupted = True, toolCall = None, groundingChunks = None, audioData = None\<rparr>"
  let ?evs = "[Message (audio_message \<lparr>duration = 1\<rparr>), Message (audio_message \<lparr>duration = 1 / 2\<rparr>),
               Clock (7 / 10)]"
  let ?st = "run ?g ?evs (connected_state 0)"
  let ?ctx = "\<lparr>currentTime = 7 / 10, ctx_closed = False\<rparr>"
  have h1: "interrupted ?msg" by simp
  have h2: "audioContextRef ?st = Some ?ctx"
    by (simp add: run_defs connected_state_def initial_state_def)
  have h3: "refs_ok ?st" by (rule refs_ok_run[OF refs_ok_connected_state])
  have m: "nextStartTimeRef ?st = 3 / 2"
    by (simp add: run_defs connected_state_def initial_state_def)
  have r: "audioSourcesRef ?st = [0, 1]"
    by (simp add: run_defs connected_state_def initial_state_def)
  have a: "analyserRef ?st \<noteq> None"
    by (simp add: run_defs connected_state_def initial_state_def)
  from interrupt_stops_and_resets[OF h1 h2 h3, of ?g] obtain st' where
    s: "onmessage ?g ?msg ?st = Returned st'"
       "\<forall>source\<in>set (audioSourcesRef ?st). node_stopped (nodes st' ! source)"
       "audioSourcesRef st' = []"
       "nextStartTimeRef st' = currentTime ?ctx"
       "\<forall>t buffer. currentTime ?ctx \<le> t \<and> analyserRef ?st \<noteq> None \<longrightarrow>
            nodes (state_of (onmessage ?g (audio_message buffer) (set_clock t st'))) =
              nodes st' @ [\<lparr>node_buffer = buffer, node_start = Some t, node_stopped = False\<rparr>]"
    by blast
  from s(2) r have st: "node_stopped (nodes st' ! 0)" "node_stopped (nodes st' ! 1)" by simp_all
  from s(5)[rule_format, of "8 / 10" "\<lparr>duration = 1\<rparr>"] a
  have n: "nodes (state_of (onmessage ?g (audio_message \<lparr>duration = 1\<rparr>) (set_clock (8 / 10) st'))) =
            nodes st' @ [\<lparr>node_buffer = \<lparr>duration = 1\<rparr>, node_start = Some (8 / 10),
                          node_stopped = False\<rparr>]"
    by simp
  from s(4) have k: "nextStartTimeRef st' = 7 / 10" by simp
  from m s(1,3) st k n show ?thesis by blast
qed

text \<open>
  Claim C8, as stated, fails. Two frames of 1.0 s and 0.05 s are enqueued at clock 0. When
  the first node ends at clock 1, \<open>isSpeaking\<close> goes from true to false although the second
  node is still in the active set and the clock (1) has not reached the marker (1.05):
  the test of onended is \<open>currentTime >= nextStartTimeRef.current - 0.1\<close> and does not look at
  the active set.
\<close>

theorem completion_flag_counterexample:
  "isSpeaking (run (\<lambda>fc. Resolved None)
      [Message (audio_message \<lparr>duration = 1\<rparr>), Message (audio_message \<lparr>duration = 1 / 20\<rparr>),
       Clock 1] (connected_state 0))
   \<and> \<not> isSpeaking (run (\<lambda>fc. Resolved None)
      [Message (audio_message \<lparr>duration = 1\<rparr>), Message (audio_message \<lparr>duration = 1 / 20\<rparr>),
       Clock 1, Ended 0] (connected_state 0))
   \<and> audioSourcesRef (run (\<lambda>fc. Resolved None)
      [Message (audio_message \<lparr>duration = 1\<rparr>), Message (audio_message \<lparr>duration = 1 / 20\<rparr>),
       Clock 1, Ended 0] (connected_state 0)) = [1]
   \<and> nextStartTimeRef (run (\<lambda>fc. Resolved None)
      [Message (audio_message \<lparr>duration = 1\<rparr>), Message (audio_message \<lparr>duration = 1 / 20\<rparr>),
       Clock 1, Ended 0] (connected_state 0)) = 21 / 20
   \<and> map_option currentTime (audioContextRef (run (\<lambda>fc. Resolved None)
      [Message (audio_message \<lparr>duration = 1\<rparr>), Message (audio_message \<lparr>duration = 1 / 20\<rparr>),
       Clock 1, Ended 0] (connected_state 0))) = Some 1"
  by (simp add: run_defs connected_state_def initial_state_def)

text \<open>
  Claim C8, amended. A node that ends is removed from the active set, and \<open>isSpeaking\<close> is
  true afterwards exactly when it was true before and the clock is still more than 0.1 s
  short of the marker. For three frames of 1.0 s, 0.5 s and 2.0 s enqueued at clock \<open>t0\<close>,
  with nothing active and the marker not ahead of the clock, the starts are \<open>t0\<close>, \<open>t0 + 1.0\<close>
  and \<open>t0 + 1.5\<close>; \<open>isSpeaking\<close> stays true when the first and the second node end and is false
  when the third ends at \<open>t0 + 3.5\<close>, the active set being empty then.
\<close>

theorem onended_flag:
  assumes "audioContextRef st = Some ctx" and "analyserRef st \<noteq> None"
    and "nextStartTimeRef st \<le> currentTime ctx" and "audioSourcesRef st = []"
  shows "(\<forall>source st1. audioSourcesRef (onended source st1) =
              filter (\<lambda>s. s \<noteq> source) (audioSourcesRef st1)
            \<and> source \<notin> set (audioSourcesRef (onended source st1)))
     \<and> (\<forall>source st1 c. audioContextRef st1 = Some c \<longrightarrow>
            isSpeaking (onended source st1) =
              (isSpeaking st1 \<and> currentTime c < nextStartTimeRef st1 - 1 / 10))
     \<and> map node_start (nodes (run g three_frames st)) =
         map node_start (nodes st) @
           [Some (currentTime ctx), Some (currentTime ctx + 1), Some (currentTime ctx + 3 / 2)]
     \<and> audioSourcesRef (run g three_frames st) =
         [length (nodes st), length (nodes st) + 1, length (nodes st) + 2]
     \<and> isSpeaking (run g three_frames st)
     \<and> isSpeaking (run g (three_frames @ take 2 (completions (currentTime ctx) (length (nodes st)))) st)
     \<and> isSpeaking (run g (three_frames @ take 4 (completions (currentTime ctx) (length (nodes st)))) st)
     \<and> \<not> isSpeaking (run g (three_frames @ completions (currentTime ctx) (length (nodes st))) st)
     \<and> audioSourcesRef (run g (three_frames @ completions (currentTime ctx) (length (nodes st))) st) = []"
proof -
  from assms(2) obtain a where a: "analyserRef st = Some a" by auto
  have 1: "\<forall>source st1. audioSourcesRef (onended source st1) =
              filter (\<lambda>s. s \<noteq> source) (audioSourcesRef st1)
            \<and> source \<notin> set (audioSourcesRef (onended source st1))"
    by (simp add: onended_def Let_def split: option.splits)
  have 2: "\<forall>source st1 c. audioContextRef st1 = Some c \<longrightarrow>
            isSpeaking (onended source st1) =
              (isSpeaking st1 \<and> currentTime c < nextStartTimeRef st1 - 1 / 10)"
    by (auto simp add: onended_def Let_def)
  have 3: "map node_start (nodes (run g three_frames st)) =
         map node_start (nodes st) @
           [Some (currentTime ctx), Some (currentTime ctx + 1), Some (currentTime ctx + 3 / 2)]"
    using assms(1,3) a by (simp add: three_frames_def run_defs max_def)
  have 4: "audioSourcesRef (run g three_frames st) =
         [length (nodes st), length (nodes st) + 1, length (nodes st) + 2]"
    using assms(1,3,4) a by (simp add: three_frames_def run_defs max_def)
  have 5: "isSpeaking (run g three_frames st)"
    using assms(1,3,4) a by (simp add: three_frames_def run_defs max_def)
  have 6: "isSpeaking (run g (three_frames @ take 2 (completions (currentTime ctx) (length (nodes st)))) st)"
    using assms(1,3,4) a by (simp add: three_frames_def completions_def run_defs max_def)
  have 7: "isSpeaking (run g (three_frames @ take 4 (completions (currentTime ctx) (length (nodes st)))) st)"
    using assms(1,3,4) a by (simp add: three_frames_def completions_def run_defs max_def)
  have 8: "\<not> isSpeaking (run g (three_frames @ completions (currentTime ctx) (length (nodes st))) st)"
    using assms(1,3,4) a by (simp add: three_frames_def completions_def run_defs max_def)
  have 9: "audioSourcesRef (run g (three_frames @ completions (currentTime ctx) (length (nodes st))) st) = []"
    using assms(1,3,4) a by (simp add: three_frames_def completions_def run_defs max_def)
  from 1 2 3 4 5 6 7 8 9 show ?thesis by blast
qed

theorem onended_flag_witness:
  "map node_start (nodes (run (\<lambda>fc. Resolved None) three_frames (connected_state 5))) =
     [Some 5, Some 6, Some (13 / 2)]
   \<and> isSpeaking (run (\<lambda>fc. Resolved None) (three_frames @ take 4 (completions 5 0))
        (connected_state 5))
   \<and> \<not> isSpeaking (run (\<lambda>fc. Resolved None) (three_frames @ completions 5 0)
        (connected_state 5))"
proof -
  let ?g = "\<lambda>fc::ToolCall. Resolved None"
  let ?ctx = "\<lparr>currentTime = 5, ctx_closed = False\<rparr>"
  have h1: "audioContextRef (connected_state 5) = Some ?ctx"
    by (simp add: connected_state_def)
  have h2: "analyserRef (connected_state 5) \<noteq> None"
    by (simp add: connected_state_def)
  have h3: "nextStartTimeRef (connected_state 5) \<le> currentTime ?ctx"
    by (simp add: connected_state_def initial_state_def)
  have h4: "audioSourcesRef (connected_state 5) = []"
    by (simp add: connected_state_def initial_state_def)
  have n: "nodes (connected_state 5) = []"
    by (simp add: connected_state_def initial_state_def)
  from onended_flag[OF h1 h2 h3 h4, of ?g] n show ?thesis by simp
qed

section \<open>Disconnecting\<close>

text \<open>
  Claim C6. From any state, in particular one in which no stream, audio context or
  session was ever acquired, disconnect returns (it does not throw) and leaves the
  component disconnected and not speaking, with an empty active set.
\<close>

theorem disconnect_safe:
  "\<exists>st'. disconnect st = Returned st' \<and> \<not> connected_flag st' \<and> \<not> isSpeaking st'
      \<and> audioSourcesRef st' = [] \<and> \<not> isVisionActive st'"
  by (cases "audioContextRef st")
    (simp_all add: disconnect_def Let_def addLog_def stopAllAudio_def)

theorem disconnect_safe_witness:
  "disconnect initial_state = Returned (addLog ''SYSTEM OFFLINE'' System initial_state)
   \<and> \<not> connected_flag (state_of (disconnect initial_state))
   \<and> \<not> isSpeaking (state_of (disconnect initial_state))"
  using disconnect_safe[of initial_state]
  by (simp add: disconnect_def Let_def addLog_def stopAllAudio_def initial_state_def)

section \<open>The frame codec\<close>

lemma sint_int16:
  "- 32768 \<le> i \<Longrightarrow> i \<le> 32767 \<Longrightarrow> sint (word_of_int i :: 16 word) = i"
  by (simp add: sint_sbintrunc' signed_take_bit_int_eq_self)

lemma int16_bytes_roundtrip:
  "word_cat (ucast (drop_bit 8 w) :: 8 word) (ucast w :: 8 word) = (w :: 16 word)"
  by (rule bit_word_eqI) (auto simp add: bit_simps)

lemma decode_frame_bytes:
  "decode_frame (int16_bytes i @ bs) =
     real_of_int (sint (word_of_int i :: 16 word)) / 32768 # decode_frame bs"
  by (simp add: int16_bytes_def Let_def int16_bytes_roundtrip)

lemma quantize_range: "- 32768 \<le> quantize rnd x \<and> quantize rnd x \<le> 32767"
  by (simp add: quantize_def)

lemma decode_encode_frame:
  "decode_frame (encode_frame rnd (x # xs)) =
     real_of_int (quantize rnd x) / 32768 # decode_frame (encode_frame rnd xs)"
  using quantize_range[of rnd x]
  by (simp add: encode_frame_def decode_frame_bytes sint_int16)

lemma decode_encode_frame_map:
  "decode_frame (encode_frame rnd xs) = map (\<lambda>x. real_of_int (quantize rnd x) / 32768) xs"
proof (induction xs)
  case Nil
  show ?case by (simp add: encode_frame_def)
next
  case (Cons x xs)
  then show ?case by (simp add: decode_encode_frame)
qed

lemma length_decode_frame: "length (decode_frame bs) = length bs div 2"
  by (induction bs rule: decode_frame.induct) simp_all

lemma length_encode_frame: "length (encode_frame rnd xs) = 2 * length xs"
  by (induction xs) (simp_all add: encode_frame_def int16_bytes_def Let_def)

lemma quantize_error:
  assumes r: "\<forall>y. \<bar>real_of_int (rnd y) - y\<bar> < 1" and x: "\<bar>x\<bar> \<le> 1"
  shows "\<bar>real_of_int (quantize rnd x) / 32768 - x\<bar> \<le> 1 / 32768"
proof -
  define y where "y = x * 32768"
  define q where "q = quantize rnd x"
  from x have yb: "- 32768 \<le> y" "y \<le> 32768" by (simp_all add: y_def abs_le_iff)
  from r have ry: "\<bar>real_of_int (rnd y) - y\<bar> < 1" by blast
  have q: "q = max (- 32768) (min 32767 (rnd y))" by (simp add: q_def quantize_def y_def)
  have "\<bar>real_of_int q - y\<bar> \<le> 1"
  proof (cases "rnd y > 32767")
    case True
    then have "q = 32767" by (simp add: q)
    moreover from True have "real_of_int (rnd y) \<ge> 32768" by linarith
    with ry have "y > 32767" by linarith
    ultimately show ?thesis using yb by simp
  next
    case False
    show ?thesis
    proof (cases "rnd y < - 32768")
      case True
      then have "real_of_int (rnd y) \<le> - 32769" by linarith
      with ry yb have False by linarith
      then show ?thesis ..
    next
      case f: False
      with False have "q = rnd y" by (simp add: q)
      with ry show ?thesis by simp
    qed
  qed
  then have "\<bar>real_of_int q / 32768 - x\<bar> * 32768 \<le> 1"
    by (simp add: y_def abs_le_iff field_simps)
  then show ?thesis by (simp add: q_def)
qed

lemma quantize_clamps:
  assumes r: "\<forall>y. \<bar>real_of_int (rnd y) - y\<bar> < 1"
  shows "1 \<le> x \<Longrightarrow> quantize rnd x = 32767" and "x \<le> - 1 \<Longrightarrow> quantize rnd x = - 32768"
proof -
  from r have ry: "\<bar>real_of_int (rnd (x * 32768)) - x * 32768\<bar> < 1" by blast
  { assume "1 \<le> x"
    with ry have "real_of_int (rnd (x * 32768)) > 32767" by linarith
    then have "rnd (x * 32768) \<ge> 32768" by linarith
    then show "quantize rnd x = 32767" by (simp add: quantize_def) }
  { assume "x \<le> - 1"
    with ry have "real_of_int (rnd (x * 32768)) < - 32767" by linarith
    then have "rnd (x * 32768) \<le> - 32768" by linarith
    then show "quantize rnd x = - 32768" by (simp add: quantize_def) }
qed

lemma floor_rounds: "\<forall>y::real. \<bar>real_of_int \<lfloor>y\<rfloor> - y\<bar> < 1"
  by (intro allI) linarith

text \<open>
  Claim C7. For any rounding that moves a scaled sample by less than one, encoding a
  buffer and decoding the bytes gives back as many samples as were encoded; a sample in
  \<open>[-1, 1]\<close> comes back within one quantization step; a sample above the range comes back as
  the largest value and one below it as \<open>-1\<close> (clamped, not wrapped); a sample takes two
  bytes, and decoding any byte string gives half as many samples as there are bytes.
\<close>

theorem frame_codec_roundtrip:
  assumes "\<forall>y. \<bar>real_of_int (rnd y) - y\<bar> < 1"
  shows "length (decode_frame (encode_frame rnd xs)) = length xs
    \<and> (\<forall>i<length xs. \<bar>xs ! i\<bar> \<le> 1 \<longrightarrow>
          \<bar>decode_frame (encode_frame rnd xs) ! i - xs ! i\<bar> \<le> quantization_step)
    \<and> (\<forall>i<length xs. 1 \<le> xs ! i \<longrightarrow> decode_frame (encode_frame rnd xs) ! i = 32767 / 32768)
    \<and> (\<forall>i<length xs. xs ! i \<le> - 1 \<longrightarrow> decode_frame (encode_frame rnd xs) ! i = - 1)
    \<and> length (encode_frame rnd xs) = 2 * length xs
    \<and> (\<forall>bs. length (decode_frame bs) = length bs div 2)"
  using quantize_error[OF assms] quantize_clamps[OF assms]
  by (simp add: decode_encode_frame_map length_decode_frame length_encode_frame quantization_step_def)

theorem frame_codec_roundtrip_witness:
  "length (decode_frame (encode_frame floor [3 / 10, 2, - 3])) = 3
   \<and> \<bar>decode_frame (encode_frame floor [3 / 10, 2, - 3]) ! 0 - 3 / 10\<bar> \<le> quantization_step
   \<and> decode_frame (encode_frame floor [3 / 10, 2, - 3]) ! 1 = 32767 / 32768
   \<and> decode_frame (encode_frame floor [3 / 10, 2, - 3]) ! 2 = - 1"
proof -
  let ?xs = "[3 / 10, 2, - 3] :: real list"
  note t = frame_codec_roundtrip[OF floor_rounds, of ?xs]
  have 1: "length (decode_frame (encode_frame floor ?xs)) = 3"
    using t[THEN conjunct1] by simp
  have 2: "\<bar>decode_frame (encode_frame floor ?xs) ! 0 - 3 / 10\<bar> \<le> quantization_step"
    using t[THEN conjunct2, THEN conjunct1, rule_format, of 0] by simp
  have 3: "decode_frame (encode_frame floor ?xs) ! 1 = 32767 / 32768"
    using t[THEN conjunct2, THEN conjunct2, THEN conjunct1, rule_format, of 1] by simp
  have 4: "decode_frame (encode_frame floor ?xs) ! 2 = - 1"
    using t[THEN conjunct2, THEN conjunct2, THEN conjunct2, THEN conjunct1, rule_format, of 2]
    by simp
  from 1 2 3 4 show ?thesis by blast
qed

end
